theory Spec2Isabelle
  imports Main "HOL-Library.Sublist"
begin

section \<open>Python strings\<close>

text \<open>
  A string is the list of the bytes of its UTF-8 text. \<open>split\<close> cuts at every
  occurrence of a one-character separator, so that \<open>.split(,)\<close> is \<open>[]\<close>;
  the separator used is the comma, a byte that occurs in no longer UTF-8 sequence. The test
  \<open>kw in text\<close> is contiguous containment, \<^const>\<open>sublist\<close>; on UTF-8 text a
  contained byte sequence starts and ends at character boundaries.

  \<open>str.lower()\<close> and \<open>str.strip()\<close> are methods of the Python library that know the
  Unicode tables. They are parameters of the model: every operation that calls them takes
  them in a record, and every statement below holds for whatever functions stand there.
\<close>

record python =
  str_lower :: "string \<Rightarrow> string"
  str_strip :: "string \<Rightarrow> string"

text \<open>
  On text made of ASCII characters only, the two methods are these: \<open>lower\<close> maps
  \<open>A..Z\<close> to \<open>a..z\<close>, \<open>strip\<close> removes the characters of codes 9 to 13 and 28 to 32
  at both ends. They are used where a statement is evaluated on ASCII text.
\<close>

definition lower_char :: "char \<Rightarrow> char" where
  "lower_char c =
     (let n = (of_char c :: nat) in if 65 \<le> n \<and> n \<le> 90 then char_of (n + 32) else c)"

definition ascii_lower :: "string \<Rightarrow> string" where
  "ascii_lower s = map lower_char s"

definition isspace :: "char \<Rightarrow> bool" where
  "isspace c = (let n = (of_char c :: nat) in (9 \<le> n \<and> n \<le> 13) \<or> (28 \<le> n \<and> n \<le> 32))"

definition ascii_strip :: "string \<Rightarrow> string" where
  "ascii_strip s = rev (dropWhile isspace (rev (dropWhile isspace s)))"

definition ascii_text :: python where
  "ascii_text = \<lparr>str_lower = ascii_lower, str_strip = ascii_strip\<rparr>"

fun split_from :: "char \<Rightarrow> string \<Rightarrow> string \<Rightarrow> string list" where
  "split_from sep cur [] = [rev cur]"
| "split_from sep cur (c # cs) =
     (if c = sep then rev cur # split_from sep [] cs else split_from sep (c # cur) cs)"

definition str_split :: "char \<Rightarrow> string \<Rightarrow> string list" where
  "str_split sep s = split_from sep [] s"

definition str_in :: "string \<Rightarrow> string \<Rightarrow> bool" where
  "str_in kw text = sublist kw text"

text \<open>Truthiness of an optional string: \<open>None\<close> and \<open>''''\<close> are falsy.\<close>

fun truthy :: "string option \<Rightarrow> bool" where
  "truthy None = False"
| "truthy (Some s) = (s \<noteq> [])"

text \<open>\<open>sep.join(parts)\<close>.\<close>

fun str_join :: "string \<Rightarrow> string list \<Rightarrow> string" where
  "str_join sep [] = []"
| "str_join sep [p] = p"
| "str_join sep (p # q # ps) = p @ sep @ str_join sep (q # ps)"

section \<open>The store: tables, constraints, connection\<close>

text \<open>
  Each table is the list of its rows in rowid order. Every \<open>id INTEGER PRIMARY KEY\<close> is
  the rowid: an insert takes the largest rowid of the table plus one (1 on an empty table),
  so the rowid of a deleted last row is handed out again. \<open>NOT NULL\<close> columns are plain
  strings, nullable ones are options. Timestamps are the ISO strings of
  \<open>datetime.now().isoformat()\<close>, read by the caller and passed in as \<open>now\<close>.
\<close>

record user_row =
  u_id :: int
  u_chat_id :: string
  u_name :: string
  u_email :: string
  u_intention :: string
  u_created_at :: string
  u_updated_at :: string
  u_group_id :: "string option"
  u_group_name :: "string option"
  u_invite_link :: "string option"

record group_row =
  g_id :: int
  g_group_id :: string
  g_group_name :: "string option"
  g_invite_link :: "string option"
  g_created_at :: string
  g_updated_at :: string

record keyword_row =
  k_id :: int
  k_user_id :: int
  k_keyword :: string
  k_created_at :: string

record tweet_row =
  t_id :: int
  t_tweet_id :: string
  t_tweet_text :: string
  t_tweet_link :: string
  t_processed_at :: string

record database =
  users :: "user_row list"
  groups :: "group_row list"
  keyword_rows :: "keyword_row list"
  tweets :: "tweet_row list"

datatype sql_error = IntegrityError

definition next_rowid :: "int list \<Rightarrow> int" where
  "next_rowid ids = foldr max ids 0 + 1"

text \<open>
  \<open>get_connection\<close> opens the file with \<open>sqlite3.connect\<close> and sets the row factory; it
  issues no \<open>PRAGMA foreign_keys = ON\<close>, so the connection keeps SQLite's default and the
  \<open>FOREIGN KEY ... ON DELETE CASCADE\<close> clause of the keywords table is not enforced.
  A block that leaves \<open>get_connection\<close> without \<open>commit\<close> loses its pending changes when
  the connection is closed: the operations below return the store they were given.
\<close>

definition foreign_keys :: bool where
  "foreign_keys = False"

subsection \<open>Subscribers\<close>

definition sql_insert_user ::
  "string \<Rightarrow> string \<Rightarrow> string \<Rightarrow> string \<Rightarrow> string \<Rightarrow> database \<Rightarrow> sql_error + (int \<times> database)" where
  "sql_insert_user chat_id name email intention now db =
     (if chat_id \<in> set (map u_chat_id (users db)) then Inl IntegrityError
      else
        let lastrowid = next_rowid (map u_id (users db)) in
        Inr (lastrowid,
             db\<lparr>users := users db @
               [\<lparr>u_id = lastrowid, u_chat_id = chat_id, u_name = name, u_email = email,
                 u_intention = intention, u_created_at = now, u_updated_at = now,
                 u_group_id = None, u_group_name = None, u_invite_link = None\<rparr>]\<rparr>))"

definition sql_insert_keyword :: "int \<Rightarrow> string \<Rightarrow> string \<Rightarrow> database \<Rightarrow> sql_error + database" where
  "sql_insert_keyword user_id keyword now db =
     (if (user_id, keyword) \<in> set (map (\<lambda>k. (k_user_id k, k_keyword k)) (keyword_rows db))
      then Inl IntegrityError
      else Inr (db\<lparr>keyword_rows := keyword_rows db @
                  [\<lparr>k_id = next_rowid (map k_id (keyword_rows db)), k_user_id = user_id,
                    k_keyword = keyword, k_created_at = now\<rparr>]\<rparr>))"

definition keyword_list :: "'a python_scheme \<Rightarrow> string \<Rightarrow> string list" where
  "keyword_list P keywords_text =
     map (str_strip P)
       (filter (\<lambda>k. str_strip P k \<noteq> []) (str_split CHR '','' keywords_text))"

fun insert_keywords ::
  "'a python_scheme \<Rightarrow> int \<Rightarrow> string \<Rightarrow> string list \<Rightarrow> database \<Rightarrow> sql_error + database" where
  "insert_keywords P user_id now [] db = Inr db"
| "insert_keywords P user_id now (keyword # rest) db =
     (case sql_insert_keyword user_id (str_lower P keyword) now db of
        Inl e \<Rightarrow> Inl e
      | Inr db' \<Rightarrow> insert_keywords P user_id now rest db')"

text \<open>
  \<open>add_user\<close>: both except branches return \<open>None\<close>; the commit is the last statement of
  the block, so an \<open>IntegrityError\<close> from either insert leaves the store as it was.
\<close>

definition add_user ::
  "'a python_scheme \<Rightarrow> string \<Rightarrow> string \<Rightarrow> string \<Rightarrow> string \<Rightarrow> string \<Rightarrow> string \<Rightarrow> database
     \<Rightarrow> int option \<times> database" where
  "add_user P chat_id name email intention keywords_text now db =
     (case sql_insert_user chat_id name email intention now db of
        Inl IntegrityError \<Rightarrow> (None, db)
      | Inr (user_id, db1) \<Rightarrow>
          (case insert_keywords P user_id now (keyword_list P keywords_text) db1 of
             Inl IntegrityError \<Rightarrow> (None, db)
           | Inr db2 \<Rightarrow> (Some user_id, db2)))"

definition get_user_by_chat_id :: "string \<Rightarrow> database \<Rightarrow> (user_row \<times> string list) option" where
  "get_user_by_chat_id chat_id db =
     (case find (\<lambda>u. u_chat_id u = chat_id) (users db) of
        None \<Rightarrow> None
      | Some user \<Rightarrow>
          Some (user, map k_keyword (filter (\<lambda>k. k_user_id k = u_id user) (keyword_rows db))))"

text \<open>
  \<open>DELETE FROM users WHERE chat_id = ?\<close>: the rows of the subscriber go; their keyword rows
  go with them only on a connection that enforces foreign keys.
\<close>

definition sql_delete_user :: "string \<Rightarrow> database \<Rightarrow> database" where
  "sql_delete_user chat_id db =
     (let deleted = map u_id (filter (\<lambda>u. u_chat_id u = chat_id) (users db)) in
      db\<lparr>users := filter (\<lambda>u. u_chat_id u \<noteq> chat_id) (users db),
         keyword_rows := (if foreign_keys
                      then filter (\<lambda>k. k_user_id k \<notin> set deleted) (keyword_rows db)
                      else keyword_rows db)\<rparr>)"

definition remove_user :: "string \<Rightarrow> database \<Rightarrow> bool \<times> database" where
  "remove_user chat_id db =
     (case find (\<lambda>u. u_chat_id u = chat_id) (users db) of
        None \<Rightarrow> (False, db)
      | Some user \<Rightarrow> (True, sql_delete_user chat_id db))"

definition empty_db :: database where
  "empty_db = \<lparr>users = [], groups = [], keyword_rows = [], tweets = []\<rparr>"

subsection \<open>Groups\<close>

definition update_group :: "string \<Rightarrow> string \<Rightarrow> string \<Rightarrow> string \<Rightarrow> database \<Rightarrow> bool \<times> database" where
  "update_group group_id group_name invite_link now db =
     (let hit = (\<lambda>g. g_group_id g = group_id) in
      (length (filter hit (groups db)) > 0,
       db\<lparr>groups := map (\<lambda>g. if hit g
                                then g\<lparr>g_group_name := Some group_name,
                                       g_invite_link := Some invite_link, g_updated_at := now\<rparr>
                                else g) (groups db)\<rparr>))"

definition update_user_group ::
  "string \<Rightarrow> string \<Rightarrow> string \<Rightarrow> string \<Rightarrow> string \<Rightarrow> database \<Rightarrow> bool \<times> database" where
  "update_user_group chat_id group_id group_name invite_link now db =
     (let hit = (\<lambda>u. u_chat_id u = chat_id) in
      (length (filter hit (users db)) > 0,
       db\<lparr>users := map (\<lambda>u. if hit u
                               then u\<lparr>u_group_id := Some group_id, u_group_name := Some group_name,
                                      u_invite_link := Some invite_link, u_updated_at := now\<rparr>
                               else u) (users db)\<rparr>))"

definition get_incomplete_groups :: "database \<Rightarrow> group_row list" where
  "get_incomplete_groups db =
     filter (\<lambda>g. \<not> truthy (g_group_name g) \<or> \<not> truthy (g_invite_link g)) (groups db)"

text \<open>
  \<open>ORDER BY created_at ASC LIMIT 1\<close>: texts compare bytewise, a proper prefix first; among
  rows with the same smallest \<open>created_at\<close> the model takes the one of smallest rowid.
\<close>

fun text_less :: "string \<Rightarrow> string \<Rightarrow> bool" where
  "text_less [] [] = False"
| "text_less [] (y # ys) = True"
| "text_less (x # xs) [] = False"
| "text_less (x # xs) (y # ys) =
     ((of_char x :: nat) < of_char y \<or> (x = y \<and> text_less xs ys))"

fun oldest :: "user_row list \<Rightarrow> user_row option" where
  "oldest [] = None"
| "oldest (u # us) =
     (case oldest us of
        None \<Rightarrow> Some u
      | Some v \<Rightarrow> if text_less (u_created_at v) (u_created_at u) then Some v else Some u)"

definition get_user_without_group :: "database \<Rightarrow> (user_row \<times> string list) option" where
  "get_user_without_group db =
     (case oldest (filter (\<lambda>u. \<not> truthy (u_group_id u)) (users db)) of
        None \<Rightarrow> None
      | Some user \<Rightarrow>
          Some (user, map k_keyword (filter (\<lambda>k. k_user_id k = u_id user) (keyword_rows db))))"

subsection \<open>Processed posts\<close>

definition is_tweet_processed :: "string \<Rightarrow> database \<Rightarrow> bool" where
  "is_tweet_processed tweet_id db = (find (\<lambda>t. t_tweet_id t = tweet_id) (tweets db) \<noteq> None)"

definition add_tweet :: "string \<Rightarrow> string \<Rightarrow> string \<Rightarrow> string \<Rightarrow> database \<Rightarrow> bool \<times> database" where
  "add_tweet tweet_id tweet_text tweet_link now db =
     (if tweet_id \<in> set (map t_tweet_id (tweets db)) then (False, db)
      else (True,
            db\<lparr>tweets := tweets db @
              [\<lparr>t_id = next_rowid (map t_id (tweets db)), t_tweet_id = tweet_id,
                t_tweet_text = tweet_text, t_tweet_link = tweet_link, t_processed_at = now\<rparr>]\<rparr>))"

subsection \<open>Keyword matching\<close>

text \<open>
  The second query is a join of users and keywords filtered by \<open>k.keyword IN (...)\<close> and
  the group binding; \<open>SELECT DISTINCT u.*\<close> keeps one copy of each row.
\<close>

definition find_users_by_keywords ::
  "'a python_scheme \<Rightarrow> string \<Rightarrow> database \<Rightarrow> user_row list" where
  "find_users_by_keywords P tweet_text db =
     (let tweet_text_lower = str_lower P tweet_text;
          all_keywords = remdups (map k_keyword (keyword_rows db));
          matching_keywords = filter (\<lambda>kw. str_in kw tweet_text_lower) all_keywords
      in if matching_keywords = [] then []
         else remdups
                (concat (map (\<lambda>u. concat (map (\<lambda>k.
                     if u_id u = k_user_id k \<and> k_keyword k \<in> set matching_keywords
                        \<and> truthy (u_group_id u)
                     then [u] else []) (keyword_rows db))) (users db))))"

section \<open>Outside capabilities\<close>

text \<open>
  Sending a post to a group, creating an invite link and sending an invite are calls to the
  messaging platform, each wrapped by the handlers module in a try/except that turns an
  exception into \<open>False\<close> or \<open>None\<close>. An outcome may depend on everything that happened
  before it in the same call, so each capability reads the trace of earlier events. The
  MD5 hex digest and the wall clock are parameters as well, and the record carries the two
  string methods of the library. Message templates are not modelled: an event records the
  destination and the payload.
\<close>

datatype event =
    TweetSent string string string bool
  | InviteLinkCreated string "string option"
  | InviteSent string string bool

record capabilities = python +
  bot_send_tweet :: "event list \<Rightarrow> string \<Rightarrow> string \<Rightarrow> string \<Rightarrow> bool"
  bot_create_invite_link :: "event list \<Rightarrow> string \<Rightarrow> string option"
  bot_send_invite :: "event list \<Rightarrow> string \<Rightarrow> string \<Rightarrow> bool"
  md5_hexdigest :: "string \<Rightarrow> string"
  clock :: "event list \<Rightarrow> string"

definition send_tweet_to_group ::
  "capabilities \<Rightarrow> event list \<Rightarrow> string \<Rightarrow> string \<Rightarrow> string \<Rightarrow> bool \<times> event list" where
  "send_tweet_to_group E trace group_id tweet_text tweet_link =
     (let ok = bot_send_tweet E trace group_id tweet_text tweet_link
      in (ok, trace @ [TweetSent group_id tweet_text tweet_link ok]))"

definition generate_invite_link ::
  "capabilities \<Rightarrow> event list \<Rightarrow> string \<Rightarrow> string option \<times> event list" where
  "generate_invite_link E trace group_id =
     (let r = bot_create_invite_link E trace group_id
      in (r, trace @ [InviteLinkCreated group_id r]))"

definition send_invite ::
  "capabilities \<Rightarrow> event list \<Rightarrow> string \<Rightarrow> string \<Rightarrow> bool \<times> event list" where
  "send_invite E trace chat_id invite_link =
     (let ok = bot_send_invite E trace chat_id invite_link
      in (ok, trace @ [InviteSent chat_id invite_link ok]))"

section \<open>Fan-out of one post\<close>

record request =
  form_link :: "string option"
  form_text :: "string option"
  form_id :: "string option"

datatype response =
    BadRequest
  | AlreadyProcessed
  | Processed (delivery_count: nat) (matching_users: nat) (unique_groups: nat)

record fanout =
  f_delivery_count :: nat
  f_processed_groups :: "string set"
  f_trace :: "event list"

text \<open>The body of \<open>for user in users\<close>; the three \<open>continue\<close> conditions come first.\<close>

fun deliver ::
  "capabilities \<Rightarrow> string \<Rightarrow> string \<Rightarrow> user_row list \<Rightarrow> fanout \<Rightarrow> fanout" where
  "deliver E tweet_text tweet_link [] st = st"
| "deliver E tweet_text tweet_link (user # rest) st =
     (case u_group_id user of
        None \<Rightarrow> deliver E tweet_text tweet_link rest st
      | Some group_id \<Rightarrow>
          if group_id = [] \<or> group_id \<in> f_processed_groups st
          then deliver E tweet_text tweet_link rest st
          else
            (case send_tweet_to_group E (f_trace st) group_id tweet_text tweet_link of
               (True, tr) \<Rightarrow>
                 deliver E tweet_text tweet_link rest
                   \<lparr>f_delivery_count = f_delivery_count st + 1,
                    f_processed_groups = insert group_id (f_processed_groups st),
                    f_trace = tr\<rparr>
             | (False, tr) \<Rightarrow>
                 deliver E tweet_text tweet_link rest (st\<lparr>f_trace := tr\<rparr>)))"

definition tweet_id_of :: "capabilities \<Rightarrow> request \<Rightarrow> string" where
  "tweet_id_of E req =
     (if truthy (form_id req) then the (form_id req)
      else md5_hexdigest E (the (form_link req) @ '':'' @ the (form_text req)))"

definition process_tweet_notification ::
  "capabilities \<Rightarrow> request \<Rightarrow> database \<Rightarrow> response \<times> database \<times> event list" where
  "process_tweet_notification E req db =
     (if \<not> truthy (form_link req) \<or> \<not> truthy (form_text req) then (BadRequest, db, [])
      else
        let tweet_link = the (form_link req);
            tweet_text = the (form_text req);
            tweet_id = tweet_id_of E req
        in if is_tweet_processed tweet_id db then (AlreadyProcessed, db, [])
           else
             let users = find_users_by_keywords E tweet_text db;
                 st = deliver E tweet_text tweet_link users
                        \<lparr>f_delivery_count = 0, f_processed_groups = {}, f_trace = []\<rparr>;
                 db' = snd (add_tweet tweet_id tweet_text tweet_link (clock E (f_trace st)) db)
             in (Processed (f_delivery_count st) (length users) (card (f_processed_groups st)),
                 db', f_trace st))"

section \<open>Group reconciliation\<close>

text \<open>
  One pass of \<open>_process_groups\<close> over the groups fetched at its start. \<open>break\<close> returns
  the store and trace as they are; each \<open>continue\<close> goes on with the next group.
\<close>

definition group_name_for :: "user_row \<Rightarrow> string list \<Rightarrow> string" where
  "group_name_for user user_keywords =
     ''Grupo de '' @ u_name user @ '' - '' @
       (if user_keywords \<noteq> [] then str_join '', '' (take 3 user_keywords) else ''Geral'')"

fun process_loop ::
  "capabilities \<Rightarrow> group_row list \<Rightarrow> database \<times> event list \<Rightarrow> database \<times> event list" where
  "process_loop E [] (db, trace) = (db, trace)"
| "process_loop E (grp # rest) (db, trace) =
     (if truthy (g_group_name grp) \<and> truthy (g_invite_link grp)
      then process_loop E rest (db, trace)
      else
        (case get_user_without_group db of
           None \<Rightarrow> (db, trace)
         | Some (user, user_keywords) \<Rightarrow>
             (case generate_invite_link E trace (g_group_id grp) of
                (r, tr1) \<Rightarrow>
                  if \<not> truthy r then process_loop E rest (db, tr1)
                  else
                    let invite_link = the r;
                        group_name = group_name_for user user_keywords
                    in (case update_group (g_group_id grp) group_name invite_link
                               (clock E tr1) db of
                          (False, db1) \<Rightarrow> process_loop E rest (db1, tr1)
                        | (True, db1) \<Rightarrow>
                            (case update_user_group (u_chat_id user) (g_group_id grp)
                                    group_name invite_link (clock E tr1) db1 of
                               (False, db2) \<Rightarrow> process_loop E rest (db2, tr1)
                             | (True, db2) \<Rightarrow>
                                 process_loop E rest
                                   (db2, snd (send_invite E tr1 (u_chat_id user) invite_link)))))))"

definition process_groups :: "capabilities \<Rightarrow> database \<Rightarrow> database \<times> event list" where
  "process_groups E db =
     (let incomplete_groups = get_incomplete_groups db in
      if incomplete_groups = [] then (db, [])
      else process_loop E incomplete_groups (db, []))"

section \<open>Reading a trace\<close>

text \<open>
  A send to a group is an event of the trace, whatever it returned; a delivery is a send
  that returned \<open>True\<close>. \<open>sends_to\<close> and \<open>deliveries_to\<close> count them,
  \<open>delivered_groups\<close> collects the groups that have a delivery, and
  \<open>sends_after_delivery\<close> counts the sends to a group that come after its first
  delivery.
\<close>

fun is_send_to :: "string \<Rightarrow> event \<Rightarrow> bool" where
  "is_send_to g (TweetSent g' tweet_text tweet_link ok) = (g' = g)"
| "is_send_to g (InviteLinkCreated g' r) = False"
| "is_send_to g (InviteSent c l ok) = False"

definition sends_to :: "string \<Rightarrow> event list \<Rightarrow> nat" where
  "sends_to g trace = length (filter (is_send_to g) trace)"

fun is_delivery_to :: "string \<Rightarrow> event \<Rightarrow> bool" where
  "is_delivery_to g (TweetSent g' tweet_text tweet_link ok) = (g' = g \<and> ok)"
| "is_delivery_to g (InviteLinkCreated g' r) = False"
| "is_delivery_to g (InviteSent c l ok) = False"

definition deliveries_to :: "string \<Rightarrow> event list \<Rightarrow> nat" where
  "deliveries_to g trace = length (filter (is_delivery_to g) trace)"

fun sends_after_delivery :: "string \<Rightarrow> event list \<Rightarrow> nat" where
  "sends_after_delivery g [] = 0"
| "sends_after_delivery g (e # es) =
     (if is_delivery_to g e then sends_to g es else sends_after_delivery g es)"

fun delivered_group :: "event \<Rightarrow> string list" where
  "delivered_group (TweetSent g tweet_text tweet_link ok) = (if ok then [g] else [])"
| "delivered_group (InviteLinkCreated g r) = []"
| "delivered_group (InviteSent c l ok) = []"

definition delivered_groups :: "event list \<Rightarrow> string set" where
  "delivered_groups trace = set (concat (map delivered_group trace))"

text \<open>The invariant of the loop over the matched subscribers.\<close>

definition fanout_inv :: "fanout \<Rightarrow> bool" where
  "fanout_inv st \<longleftrightarrow>
     finite (f_processed_groups st)
     \<and> f_delivery_count st = card (f_processed_groups st)
     \<and> (\<forall>g. deliveries_to g (f_trace st) = (if g \<in> f_processed_groups st then 1 else 0))
     \<and> (\<forall>g. sends_after_delivery g (f_trace st) = 0)"

section \<open>Stores, platforms and posts used as instances\<close>

definition platform_up :: capabilities where
  "platform_up =
     \<lparr>str_lower = ascii_lower, str_strip = ascii_strip,
      bot_send_tweet = (\<lambda>trace group_id tweet_text tweet_link. True),
      bot_create_invite_link = (\<lambda>trace group_id. Some (''https://t.me/+'' @ group_id)),
      bot_send_invite = (\<lambda>trace chat_id invite_link. True),
      md5_hexdigest = (\<lambda>s. ''md5:'' @ s),
      clock = (\<lambda>trace. ''2024-05-02T09:00:00'')\<rparr>"

definition platform_down :: capabilities where
  "platform_down =
     \<lparr>str_lower = ascii_lower, str_strip = ascii_strip,
      bot_send_tweet = (\<lambda>trace group_id tweet_text tweet_link. False),
      bot_create_invite_link = (\<lambda>trace group_id. None),
      bot_send_invite = (\<lambda>trace chat_id invite_link. False),
      md5_hexdigest = (\<lambda>s. ''md5:'' @ s),
      clock = (\<lambda>trace. ''2024-05-03T09:00:00'')\<rparr>"

text \<open>The first send of a call fails, every later one succeeds.\<close>

definition platform_flaky :: capabilities where
  "platform_flaky =
     \<lparr>str_lower = ascii_lower, str_strip = ascii_strip,
      bot_send_tweet = (\<lambda>trace group_id tweet_text tweet_link. trace \<noteq> []),
      bot_create_invite_link = (\<lambda>trace group_id. None),
      bot_send_invite = (\<lambda>trace chat_id invite_link. False),
      md5_hexdigest = (\<lambda>s. ''md5:'' @ s),
      clock = (\<lambda>trace. ''2024-05-02T09:00:00'')\<rparr>"

definition platform_g2_down :: capabilities where
  "platform_g2_down =
     \<lparr>str_lower = ascii_lower, str_strip = ascii_strip,
      bot_send_tweet = (\<lambda>trace group_id tweet_text tweet_link. group_id \<noteq> ''G2''),
      bot_create_invite_link = (\<lambda>trace group_id. None),
      bot_send_invite = (\<lambda>trace chat_id invite_link. False),
      md5_hexdigest = (\<lambda>s. ''md5:'' @ s),
      clock = (\<lambda>trace. ''2024-05-02T09:00:00'')\<rparr>"

definition member_row :: "int \<Rightarrow> string \<Rightarrow> string \<Rightarrow> string option \<Rightarrow> user_row" where
  "member_row i chat_id name group_id =
     \<lparr>u_id = i, u_chat_id = chat_id, u_name = name, u_email = name @ ''@example.org'',
      u_intention = ''news'', u_created_at = ''2024-05-01T08:00:00'',
      u_updated_at = ''2024-05-01T08:00:00'', u_group_id = group_id,
      u_group_name = map_option (\<lambda>g. ''Grupo '' @ g) group_id,
      u_invite_link = map_option (\<lambda>g. ''https://t.me/+'' @ g) group_id\<rparr>"

definition interest :: "int \<Rightarrow> int \<Rightarrow> string \<Rightarrow> keyword_row" where
  "interest i user_id keyword =
     \<lparr>k_id = i, k_user_id = user_id, k_keyword = keyword,
      k_created_at = ''2024-05-01T08:00:00''\<rparr>"

definition new_group :: "int \<Rightarrow> string \<Rightarrow> group_row" where
  "new_group i group_id =
     \<lparr>g_id = i, g_group_id = group_id, g_group_name = None, g_invite_link = None,
      g_created_at = ''2024-05-01T07:00:00'', g_updated_at = ''2024-05-01T07:00:00''\<rparr>"

text \<open>
  Ana and Bruno share group G1, Carla is in G2, Dani has no group yet, Edu is in G3 and
  follows something else.
\<close>

definition shared_group_store :: database where
  "shared_group_store =
     \<lparr>users = [member_row 1 ''101'' ''Ana'' (Some ''G1''),
               member_row 2 ''102'' ''Bruno'' (Some ''G1''),
               member_row 3 ''103'' ''Carla'' (Some ''G2''),
               member_row 4 ''104'' ''Dani'' None,
               member_row 5 ''105'' ''Edu'' (Some ''G3'')],
      groups = [],
      keyword_rows = [interest 1 1 ''rust'', interest 2 2 ''backend'', interest 3 3 ''rust'',
                      interest 4 4 ''rust'', interest 5 5 ''golang''],
      tweets = []\<rparr>"

definition release_text :: string where
  "release_text = ''New Rust backend release!''"

definition release_link :: string where
  "release_link = ''https://x.com/p/1''"

definition release_post :: request where
  "release_post = \<lparr>form_link = Some release_link, form_text = Some release_text, form_id = None\<rparr>"

definition release_row :: "string \<Rightarrow> tweet_row" where
  "release_row now =
     \<lparr>t_id = 1, t_tweet_id = ''md5:'' @ release_link @ '':'' @ release_text,
      t_tweet_text = release_text, t_tweet_link = release_link, t_processed_at = now\<rparr>"

text \<open>The store after the post went through, on a working and on a failing platform.\<close>

definition recorded_store :: database where
  "recorded_store = shared_group_store\<lparr>tweets := [release_row ''2024-05-02T09:00:00'']\<rparr>"

definition unsent_store :: database where
  "unsent_store = shared_group_store\<lparr>tweets := [release_row ''2024-05-03T09:00:00'']\<rparr>"

text \<open>Two groups wait for a subscriber; the only subscriber already has a group.\<close>

definition stalled_store :: database where
  "stalled_store =
     \<lparr>users = [member_row 1 ''101'' ''Ana'' (Some ''G0'')],
      groups = [new_group 1 ''G1'', new_group 2 ''G2''],
      keyword_rows = [interest 1 1 ''rust''],
      tweets = []\<rparr>"

text \<open>Two groups wait, and Bruno is the only subscriber without a group.\<close>

definition bruno_store :: database where
  "bruno_store =
     \<lparr>users = [member_row 1 ''101'' ''Ana'' (Some ''G0''), member_row 2 ''102'' ''Bruno'' None],
      groups = [new_group 1 ''G1'', new_group 2 ''G2''],
      keyword_rows = [interest 1 1 ''rust'', interest 2 2 ''ai'', interest 3 2 ''data''],
      tweets = []\<rparr>"

text \<open>Ana registers with one interest, and is removed again.\<close>

definition ana_store :: database where
  "ana_store =
     snd (add_user ascii_text ''42'' ''Ana'' ''Ana@example.org'' ''news'' ''rust'' ''2024-05-01T08:00:00''
            empty_db)"

definition after_removal :: database where
  "after_removal = snd (remove_user ''42'' ana_store)"

section \<open>Facts about the store\<close>

lemma str_in_iff: "str_in kw text \<longleftrightarrow> (\<exists>pre suf. text = pre @ kw @ suf)"
  by (simp add: str_in_def sublist_def)

lemma is_tweet_processed_iff:
  "is_tweet_processed tweet_id db \<longleftrightarrow> tweet_id \<in> set (map t_tweet_id (tweets db))"
  by (auto simp: is_tweet_processed_def find_None_iff)

lemma add_tweet_fresh:
  assumes "\<not> is_tweet_processed tweet_id db"
  shows "add_tweet tweet_id tweet_text tweet_link now db =
           (True, db\<lparr>tweets := tweets db @
              [\<lparr>t_id = next_rowid (map t_id (tweets db)), t_tweet_id = tweet_id,
                t_tweet_text = tweet_text, t_tweet_link = tweet_link, t_processed_at = now\<rparr>]\<rparr>)"
  using assms by (simp add: add_tweet_def is_tweet_processed_iff)

lemma ledger_count_fresh:
  assumes "\<not> is_tweet_processed tweet_id db"
  shows "length (filter (\<lambda>t. t_tweet_id t = tweet_id) (tweets db)) = 0"
  using assms by (auto simp: is_tweet_processed_iff filter_empty_conv)

lemma oldest_None: "oldest us = None \<longleftrightarrow> us = []"
  by (induction us) (auto split: option.splits)

lemma get_user_without_group_None:
  "get_user_without_group db = None \<longleftrightarrow> (\<forall>u \<in> set (users db). truthy (u_group_id u))"
proof -
  have "get_user_without_group db = None \<longleftrightarrow>
          oldest (filter (\<lambda>u. \<not> truthy (u_group_id u)) (users db)) = None"
    by (simp add: get_user_without_group_def split: option.splits)
  then show ?thesis
    by (simp add: oldest_None filter_empty_conv)
qed

section \<open>Facts about the fan-out\<close>

lemma process_valid_fresh:
  assumes "truthy (form_link req)" "truthy (form_text req)"
      and "\<not> is_tweet_processed (tweet_id_of E req) db"
  shows "process_tweet_notification E req db =
           (let users = find_users_by_keywords E (the (form_text req)) db;
                st = deliver E (the (form_text req)) (the (form_link req)) users
                       \<lparr>f_delivery_count = 0, f_processed_groups = {}, f_trace = []\<rparr>
            in (Processed (f_delivery_count st) (length users) (card (f_processed_groups st)),
                db\<lparr>tweets := tweets db @
                   [\<lparr>t_id = next_rowid (map t_id (tweets db)), t_tweet_id = tweet_id_of E req,
                     t_tweet_text = the (form_text req), t_tweet_link = the (form_link req),
                     t_processed_at = clock E (f_trace st)\<rparr>]\<rparr>,
                f_trace st))"
  using assms by (simp add: process_tweet_notification_def Let_def add_tweet_fresh)

lemma process_cases:
  "process_tweet_notification E req db = (r, db', tr) \<Longrightarrow>
     (r = BadRequest \<and> (\<not> truthy (form_link req) \<or> \<not> truthy (form_text req))
        \<and> db' = db \<and> tr = [])
   \<or> (r = AlreadyProcessed \<and> truthy (form_link req) \<and> truthy (form_text req)
        \<and> is_tweet_processed (tweet_id_of E req) db \<and> db' = db \<and> tr = [])
   \<or> ((\<exists>n m k. r = Processed n m k) \<and> truthy (form_link req) \<and> truthy (form_text req)
        \<and> \<not> is_tweet_processed (tweet_id_of E req) db)"
  by (auto simp: process_tweet_notification_def Let_def split: if_splits)

lemma sends_after_delivery_snoc:
  "sends_after_delivery g (trace @ [e]) =
     sends_after_delivery g trace
       + (if 0 < deliveries_to g trace \<and> is_send_to g e then 1 else 0)"
  by (induction trace) (auto simp: sends_to_def deliveries_to_def)

lemma fanout_inv_init:
  "fanout_inv \<lparr>f_delivery_count = 0, f_processed_groups = {}, f_trace = []\<rparr>"
  by (simp add: fanout_inv_def deliveries_to_def)

lemma fanout_inv_success:
  assumes "fanout_inv st" "g \<notin> f_processed_groups st"
  shows "fanout_inv \<lparr>f_delivery_count = Suc (f_delivery_count st),
                     f_processed_groups = insert g (f_processed_groups st),
                     f_trace = f_trace st @ [TweetSent g tweet_text tweet_link True]\<rparr>"
proof -
  from assms have none: "deliveries_to g (f_trace st) = 0"
    by (simp add: fanout_inv_def)
  have "\<And>h. sends_after_delivery h
            (f_trace st @ [TweetSent g tweet_text tweet_link True]) = 0"
    using assms none by (auto simp: sends_after_delivery_snoc fanout_inv_def)
  moreover have "\<And>h. deliveries_to h (f_trace st @ [TweetSent g tweet_text tweet_link True]) =
      (if h \<in> insert g (f_processed_groups st) then 1 else 0)"
    using assms by (auto simp: fanout_inv_def deliveries_to_def)
  ultimately show ?thesis
    using assms by (simp add: fanout_inv_def)
qed

lemma fanout_inv_failure:
  assumes "fanout_inv st" "g \<notin> f_processed_groups st"
  shows "fanout_inv (st\<lparr>f_trace := f_trace st @ [TweetSent g tweet_text tweet_link False]\<rparr>)"
proof -
  from assms have none: "deliveries_to g (f_trace st) = 0"
    by (simp add: fanout_inv_def)
  have "\<And>h. sends_after_delivery h
            (f_trace st @ [TweetSent g tweet_text tweet_link False]) = 0"
    using assms none by (auto simp: sends_after_delivery_snoc fanout_inv_def)
  moreover have "\<And>h. deliveries_to h (f_trace st @ [TweetSent g tweet_text tweet_link False]) =
      (if h \<in> f_processed_groups st then 1 else 0)"
    using assms by (auto simp: fanout_inv_def deliveries_to_def)
  ultimately show ?thesis
    using assms by (simp add: fanout_inv_def)
qed

lemma deliver_inv:
  "fanout_inv st \<Longrightarrow> fanout_inv (deliver E tweet_text tweet_link us st)"
proof (induction us arbitrary: st)
  case Nil
  then show ?case by simp
next
  case (Cons user rest)
  show ?case
  proof (cases "u_group_id user")
    case None
    with Cons show ?thesis by simp
  next
    case (Some g)
    show ?thesis
    proof (cases "g = [] \<or> g \<in> f_processed_groups st")
      case True
      with Some Cons show ?thesis by auto
    next
      case False
      show ?thesis
      proof (cases "bot_send_tweet E (f_trace st) g tweet_text tweet_link")
        case True
        with Some False Cons.prems show ?thesis
          by (auto simp: send_tweet_to_group_def intro!: Cons.IH fanout_inv_success)
      next
        case sent: False
        with Some False Cons.prems show ?thesis
          by (auto simp: send_tweet_to_group_def intro!: Cons.IH fanout_inv_failure)
      qed
    qed
  qed
qed

lemma process_trace_inv:
  "\<exists>st. fanout_inv st \<and> snd (snd (process_tweet_notification E req db)) = f_trace st"
proof (cases "\<exists>n m k. fst (process_tweet_notification E req db) = Processed n m k")
  case True
  then have "snd (snd (process_tweet_notification E req db)) =
      f_trace (deliver E (the (form_text req)) (the (form_link req))
        (find_users_by_keywords E (the (form_text req)) db)
        \<lparr>f_delivery_count = 0, f_processed_groups = {}, f_trace = []\<rparr>)"
    by (auto simp: process_tweet_notification_def Let_def split: if_splits)
  with deliver_inv [OF fanout_inv_init] show ?thesis by blast
next
  case False
  then have "snd (snd (process_tweet_notification E req db)) =
      f_trace \<lparr>f_delivery_count = 0, f_processed_groups = {}, f_trace = []\<rparr>"
    by (auto simp: process_tweet_notification_def Let_def split: if_splits)
  with fanout_inv_init show ?thesis by blast
qed

lemma process_processed_inv:
  assumes "process_tweet_notification E req db = (Processed dc mu ug, db', trace)"
  shows "\<exists>st. fanout_inv st \<and> dc = f_delivery_count st
              \<and> ug = card (f_processed_groups st) \<and> trace = f_trace st"
proof -
  let ?st = "deliver E (the (form_text req)) (the (form_link req))
        (find_users_by_keywords E (the (form_text req)) db)
        \<lparr>f_delivery_count = 0, f_processed_groups = {}, f_trace = []\<rparr>"
  from assms have "dc = f_delivery_count ?st \<and> ug = card (f_processed_groups ?st)
      \<and> trace = f_trace ?st"
    by (auto simp: process_tweet_notification_def Let_def split: if_splits)
  with deliver_inv [OF fanout_inv_init] show ?thesis by blast
qed

lemma deliver_sends_bound:
  "sends_to g (f_trace (deliver E tweet_text tweet_link us st))
     \<le> sends_to g (f_trace st) + length (filter (\<lambda>u. u_group_id u = Some g) us)"
proof (induction us arbitrary: st)
  case Nil
  show ?case by simp
next
  case (Cons user rest)
  show ?case
  proof (cases "u_group_id user")
    case None
    with Cons [of st] show ?thesis by simp
  next
    case (Some h)
    show ?thesis
    proof (cases "h = [] \<or> h \<in> f_processed_groups st")
      case True
      with Some Cons [of st] show ?thesis by auto
    next
      case False
      let ?ok = "bot_send_tweet E (f_trace st) h tweet_text tweet_link"
      let ?tr = "f_trace st @ [TweetSent h tweet_text tweet_link ?ok]"
      obtain st' where step: "deliver E tweet_text tweet_link (user # rest) st =
          deliver E tweet_text tweet_link rest st'" and tr: "f_trace st' = ?tr"
        using Some False by (cases ?ok) (auto simp: send_tweet_to_group_def)
      have "sends_to g ?tr = sends_to g (f_trace st) + (if h = g then 1 else 0)"
        by (simp add: sends_to_def)
      with Cons [of st'] step tr Some show ?thesis by auto
    qed
  qed
qed

lemma process_sends_bound:
  "sends_to g (snd (snd (process_tweet_notification E req db)))
     \<le> length (filter (\<lambda>u. u_group_id u = Some g)
                 (find_users_by_keywords E (the (form_text req)) db))"
proof (cases "\<exists>n m k. fst (process_tweet_notification E req db) = Processed n m k")
  case True
  then have "snd (snd (process_tweet_notification E req db)) =
      f_trace (deliver E (the (form_text req)) (the (form_link req))
        (find_users_by_keywords E (the (form_text req)) db)
        \<lparr>f_delivery_count = 0, f_processed_groups = {}, f_trace = []\<rparr>)"
    by (auto simp: process_tweet_notification_def Let_def split: if_splits)
  with deliver_sends_bound [of g E "the (form_text req)" "the (form_link req)"
         "find_users_by_keywords E (the (form_text req)) db"
         "\<lparr>f_delivery_count = 0, f_processed_groups = {}, f_trace = []\<rparr>"]
  show ?thesis by (simp add: sends_to_def)
next
  case False
  then have "snd (snd (process_tweet_notification E req db)) = []"
    by (auto simp: process_tweet_notification_def Let_def split: if_splits)
  then show ?thesis by (simp add: sends_to_def)
qed

lemma delivered_groups_iff:
  "g \<in> delivered_groups trace \<longleftrightarrow> deliveries_to g trace > 0"
proof (induction trace)
  case Nil
  show ?case by (simp add: delivered_groups_def deliveries_to_def)
next
  case (Cons e es)
  then show ?case
    by (cases e) (auto simp: delivered_groups_def deliveries_to_def)
qed

lemma delivered_groups_inv:
  "fanout_inv st \<Longrightarrow> delivered_groups (f_trace st) = f_processed_groups st"
  by (auto simp: delivered_groups_iff fanout_inv_def split: if_splits)

section \<open>Facts about registration and removal\<close>

lemma insert_keywords_ok:
  "insert_keywords P user_id now ks db = Inr db' \<Longrightarrow>
     distinct (map (str_lower P) ks)
     \<and> (\<forall>kw \<in> set ks. (user_id, str_lower P kw)
                         \<notin> set (map (\<lambda>k. (k_user_id k, k_keyword k)) (keyword_rows db)))"
proof (induction ks arbitrary: db)
  case Nil
  then show ?case by simp
next
  case (Cons kw rest)
  from Cons.prems obtain db1 where
    one: "sql_insert_keyword user_id (str_lower P kw) now db = Inr db1"
    and more: "insert_keywords P user_id now rest db1 = Inr db'"
    by (auto split: sum.splits)
  from one have free: "(user_id, str_lower P kw)
        \<notin> set (map (\<lambda>k. (k_user_id k, k_keyword k)) (keyword_rows db))"
    and db1: "set (map (\<lambda>k. (k_user_id k, k_keyword k)) (keyword_rows db1)) =
      insert (user_id, str_lower P kw)
        (set (map (\<lambda>k. (k_user_id k, k_keyword k)) (keyword_rows db)))"
    by (auto simp: sql_insert_keyword_def split: if_splits)
  from Cons.IH [OF more] db1 free show ?case by auto
qed

lemma add_user_no_tokens:
  assumes "chat_id \<notin> set (map u_chat_id (users db))"
      and "keyword_list P keywords_text = []"
  shows "add_user P chat_id name email intention keywords_text now db =
     (Some (next_rowid (map u_id (users db))),
      db\<lparr>users := users db @
        [\<lparr>u_id = next_rowid (map u_id (users db)), u_chat_id = chat_id, u_name = name,
          u_email = email, u_intention = intention, u_created_at = now, u_updated_at = now,
          u_group_id = None, u_group_name = None, u_invite_link = None\<rparr>]\<rparr>)"
  using assms by (simp add: add_user_def sql_insert_user_def Let_def)

lemma find_fresh_appended:
  assumes "chat_id \<notin> set (map u_chat_id us)" and "u_chat_id row = chat_id"
  shows "find (\<lambda>u. u_chat_id u = chat_id) (us @ [row]) = Some row"
  using assms by (induction us) auto

lemma process_loop_no_user:
  "get_user_without_group db = None \<Longrightarrow> process_loop E gs (db, trace) = (db, trace)"
  by (induction gs) simp_all

section \<open>Idempotent processing of a post\<close>

text \<open>
  Claim C1. Once a call has processed a post and recorded its identifier, every later valid
  notification that carries the same identifier is answered with the distinct
  "already processed" result, attempts no delivery, leaves the store as it is, and the
  ledger holds exactly one row for that identifier.
\<close>

theorem second_processing_is_noop:
  assumes first: "process_tweet_notification E1 req1 db = (Processed n m k, db1, trace1)"
      and valid: "truthy (form_link req2)" "truthy (form_text req2)"
      and same_id: "tweet_id_of E2 req2 = tweet_id_of E1 req1"
  shows "process_tweet_notification E2 req2 db1 = (AlreadyProcessed, db1, [])
         \<and> length (filter (\<lambda>t. t_tweet_id t = tweet_id_of E1 req1) (tweets db1)) = 1"
proof -
  from process_cases [OF first]
  have valid1: "truthy (form_link req1)" "truthy (form_text req1)"
    and fresh: "\<not> is_tweet_processed (tweet_id_of E1 req1) db"
    by auto
  from first process_valid_fresh [OF valid1 fresh]
  obtain now where db1: "tweets db1 = tweets db @
      [\<lparr>t_id = next_rowid (map t_id (tweets db)), t_tweet_id = tweet_id_of E1 req1,
        t_tweet_text = the (form_text req1), t_tweet_link = the (form_link req1),
        t_processed_at = now\<rparr>]"
    by (auto simp: Let_def)
  have seen: "is_tweet_processed (tweet_id_of E2 req2) db1"
    by (simp add: is_tweet_processed_iff db1 same_id)
  have "process_tweet_notification E2 req2 db1 = (AlreadyProcessed, db1, [])"
    using valid seen by (simp add: process_tweet_notification_def Let_def)
  moreover have "length (filter (\<lambda>t. t_tweet_id t = tweet_id_of E1 req1) (tweets db1)) = 1"
    by (simp add: db1 ledger_count_fresh [OF fresh])
  ultimately show ?thesis by simp
qed

theorem second_processing_is_noop_witness:
  "process_tweet_notification platform_up release_post shared_group_store =
     (Processed 2 3 2, recorded_store,
      [TweetSent ''G1'' release_text release_link True,
       TweetSent ''G2'' release_text release_link True])
   \<and> process_tweet_notification platform_down release_post recorded_store =
       (AlreadyProcessed, recorded_store, [])
   \<and> length (filter (\<lambda>t. t_tweet_id t = tweet_id_of platform_up release_post)
               (tweets recorded_store)) = 1"
proof -
  have first: "process_tweet_notification platform_up release_post shared_group_store =
     (Processed 2 3 2, recorded_store,
      [TweetSent ''G1'' release_text release_link True,
       TweetSent ''G2'' release_text release_link True])"
    by code_simp
  have valid: "truthy (form_link release_post)" "truthy (form_text release_post)"
    by code_simp+
  have same_id: "tweet_id_of platform_down release_post = tweet_id_of platform_up release_post"
    by code_simp
  from second_processing_is_noop [OF first valid same_id] first show ?thesis
    by simp
qed

text \<open>
  Claim C6. A valid post whose identifier is not in the ledger is answered with the
  telemetry response and its identifier is appended to the ledger, whatever the matcher
  returns and whatever the sends return (no matching subscriber, every send failing);
  the same notification is then answered "already processed" and sends nothing.
\<close>

theorem post_recorded_unconditionally:
  assumes valid: "truthy (form_link req)" "truthy (form_text req)"
      and fresh: "\<not> is_tweet_processed (tweet_id_of E req) db"
  shows "\<exists>n m k db' trace row.
           process_tweet_notification E req db = (Processed n m k, db', trace)
           \<and> tweets db' = tweets db @ [row]
           \<and> t_tweet_id row = tweet_id_of E req
           \<and> is_tweet_processed (tweet_id_of E req) db'
           \<and> process_tweet_notification E req db' = (AlreadyProcessed, db', [])"
proof -
  let ?st = "deliver E (the (form_text req)) (the (form_link req))
        (find_users_by_keywords E (the (form_text req)) db)
        \<lparr>f_delivery_count = 0, f_processed_groups = {}, f_trace = []\<rparr>"
  let ?row = "\<lparr>t_id = next_rowid (map t_id (tweets db)), t_tweet_id = tweet_id_of E req,
                t_tweet_text = the (form_text req), t_tweet_link = the (form_link req),
                t_processed_at = clock E (f_trace ?st)\<rparr>"
  let ?db' = "db\<lparr>tweets := tweets db @ [?row]\<rparr>"
  have run: "process_tweet_notification E req db =
      (Processed (f_delivery_count ?st)
         (length (find_users_by_keywords E (the (form_text req)) db))
         (card (f_processed_groups ?st)), ?db', f_trace ?st)"
    using process_valid_fresh [OF valid fresh] by (simp add: Let_def)
  have seen: "is_tweet_processed (tweet_id_of E req) ?db'"
    by (simp add: is_tweet_processed_iff)
  have again: "process_tweet_notification E req ?db' = (AlreadyProcessed, ?db', [])"
    using valid seen by (simp add: process_tweet_notification_def Let_def)
  have "tweets ?db' = tweets db @ [?row]" "t_tweet_id ?row = tweet_id_of E req"
    by simp_all
  with run seen again show ?thesis by blast
qed

text \<open>
  On the failing platform all three sends fail, two of them to G1 (a failed send does not
  mark the group, so Bruno's row tries G1 again); the post is recorded all the same.
\<close>

theorem post_recorded_unconditionally_witness:
  "\<not> is_tweet_processed (tweet_id_of platform_down release_post) shared_group_store
   \<and> process_tweet_notification platform_down release_post shared_group_store =
       (Processed 0 3 0, unsent_store,
        [TweetSent ''G1'' release_text release_link False,
         TweetSent ''G1'' release_text release_link False,
         TweetSent ''G2'' release_text release_link False])
   \<and> is_tweet_processed (tweet_id_of platform_down release_post) unsent_store
   \<and> process_tweet_notification platform_down release_post unsent_store =
       (AlreadyProcessed, unsent_store, [])"
proof -
  have valid: "truthy (form_link release_post)" "truthy (form_text release_post)"
    by code_simp+
  have fresh: "\<not> is_tweet_processed (tweet_id_of platform_down release_post) shared_group_store"
    by code_simp
  have run: "process_tweet_notification platform_down release_post shared_group_store =
       (Processed 0 3 0, unsent_store,
        [TweetSent ''G1'' release_text release_link False,
         TweetSent ''G1'' release_text release_link False,
         TweetSent ''G2'' release_text release_link False])"
    by code_simp
  from post_recorded_unconditionally [OF valid fresh] run
  have "is_tweet_processed (tweet_id_of platform_down release_post) unsent_store
      \<and> process_tweet_notification platform_down release_post unsent_store =
          (AlreadyProcessed, unsent_store, [])"
    by auto
  with fresh run show ?thesis by simp
qed

text \<open>
  The scenario of the specification: Ana follows "rust" and "backend" and has no group. The
  post matches her keywords, nothing is sent, and the post is recorded.
\<close>

lemma unbound_subscriber_scenario:
  "process_tweet_notification platform_up release_post
     (snd (add_user ascii_text ''42'' ''Ana'' ''ana@example.org'' ''news'' ''rust, backend''
             ''2024-05-01T08:00:00'' empty_db)) =
   (Processed 0 0 0,
    \<lparr>users = [\<lparr>u_id = 1, u_chat_id = ''42'', u_name = ''Ana'', u_email = ''ana@example.org'',
               u_intention = ''news'', u_created_at = ''2024-05-01T08:00:00'',
               u_updated_at = ''2024-05-01T08:00:00'', u_group_id = None,
               u_group_name = None, u_invite_link = None\<rparr>],
     groups = [],
     keyword_rows = [interest 1 1 ''rust'', interest 2 1 ''backend''],
     tweets = [release_row ''2024-05-02T09:00:00'']\<rparr>,
    [])"
  by code_simp

section \<open>One delivery per group, and the telemetry\<close>

text \<open>
  Claim C2 says that one processing call delivers a post to a group at most once, however
  many matched subscribers share the group. Read over sends, this fails: the loop marks a
  group only after a send to it returned \<open>True\<close>, so a group whose send failed is sent
  to again for the next matched subscriber of the group. On a platform whose first send
  fails, G1 is sent to twice in one call, for Ana and then for Bruno.
\<close>

theorem single_send_per_group_counterexample:
  "snd (snd (process_tweet_notification platform_flaky release_post shared_group_store)) =
     [TweetSent ''G1'' release_text release_link False,
      TweetSent ''G1'' release_text release_link True,
      TweetSent ''G2'' release_text release_link True]
   \<and> \<not> sends_to ''G1''
          (snd (snd (process_tweet_notification platform_flaky release_post
                       shared_group_store))) \<le> 1"
  by code_simp

text \<open>
  Claim C2, amended. In the trace of one processing call, every group has at most one
  delivery (a send that returned \<open>True\<close>), no send to a group comes after a delivery to
  it, and a group is sent to at most once for each matched subscriber bound to it.
\<close>

theorem one_delivery_per_group:
  "deliveries_to g (snd (snd (process_tweet_notification E req db))) \<le> 1
   \<and> sends_after_delivery g (snd (snd (process_tweet_notification E req db))) = 0
   \<and> sends_to g (snd (snd (process_tweet_notification E req db)))
       \<le> length (filter (\<lambda>u. u_group_id u = Some g)
                   (find_users_by_keywords E (the (form_text req)) db))"
proof -
  from process_trace_inv [of E req db]
  obtain st where "fanout_inv st"
    and "snd (snd (process_tweet_notification E req db)) = f_trace st"
    by blast
  then have "deliveries_to g (snd (snd (process_tweet_notification E req db))) \<le> 1"
    and "sends_after_delivery g (snd (snd (process_tweet_notification E req db))) = 0"
    by (simp_all add: fanout_inv_def)
  with process_sends_bound [of g E req db] show ?thesis by simp
qed

text \<open>
  Ana and Bruno both match and share G1. On the working platform G1 is sent to once; on
  the platform whose first send fails it is sent to twice, the second send is the
  delivery, and nothing is sent to G1 after it.
\<close>

theorem one_delivery_per_group_witness:
  "length (filter (\<lambda>u. u_group_id u = Some ''G1'')
             (find_users_by_keywords platform_up (the (form_text release_post))
                shared_group_store)) = 2
   \<and> sends_to ''G1''
        (snd (snd (process_tweet_notification platform_up release_post shared_group_store))) = 1
   \<and> deliveries_to ''G1''
        (snd (snd (process_tweet_notification platform_up release_post shared_group_store))) \<le> 1
   \<and> sends_after_delivery ''G1''
        (snd (snd (process_tweet_notification platform_up release_post shared_group_store))) = 0
   \<and> deliveries_to ''G1''
        (snd (snd (process_tweet_notification platform_flaky release_post
                     shared_group_store))) = 1"
proof -
  have "length (filter (\<lambda>u. u_group_id u = Some ''G1'')
             (find_users_by_keywords platform_up (the (form_text release_post))
                shared_group_store)) = 2"
    by code_simp
  moreover have "sends_to ''G1''
        (snd (snd (process_tweet_notification platform_up release_post shared_group_store))) = 1"
    by code_simp
  moreover have "deliveries_to ''G1''
        (snd (snd (process_tweet_notification platform_flaky release_post
                     shared_group_store))) = 1"
    by code_simp
  ultimately show ?thesis
    using one_delivery_per_group [of "''G1''" platform_up release_post shared_group_store]
    by simp
qed

text \<open>
  Claim C9. In every telemetry response the delivery count equals the number of unique
  groups, and both equal the number of groups that have a delivery in the trace: a group
  whose sends all failed is counted in neither.
\<close>

theorem telemetry_counts_agree:
  assumes "process_tweet_notification E req db = (Processed dc mu ug, db', trace)"
  shows "dc = ug \<and> ug = card (delivered_groups trace)"
proof -
  from process_processed_inv [OF assms]
  obtain st where inv: "fanout_inv st" and tr: "trace = f_trace st"
    and dc: "dc = f_delivery_count st" and ug: "ug = card (f_processed_groups st)"
    by blast
  from inv have "f_delivery_count st = card (f_processed_groups st)"
    by (simp add: fanout_inv_def)
  with dc ug tr delivered_groups_inv [OF inv] show ?thesis by simp
qed

text \<open>Three subscribers match, the send to G2 fails: one delivery, one unique group.\<close>

theorem telemetry_counts_agree_witness:
  "process_tweet_notification platform_g2_down release_post shared_group_store =
     (Processed 1 3 1, recorded_store,
      [TweetSent ''G1'' release_text release_link True,
       TweetSent ''G2'' release_text release_link False])
   \<and> card (delivered_groups
             [TweetSent ''G1'' release_text release_link True,
              TweetSent ''G2'' release_text release_link False]) = 1"
proof -
  have run: "process_tweet_notification platform_g2_down release_post shared_group_store =
     (Processed 1 3 1, recorded_store,
      [TweetSent ''G1'' release_text release_link True,
       TweetSent ''G2'' release_text release_link False])"
    by code_simp
  from telemetry_counts_agree [OF run] run show ?thesis by simp
qed

section \<open>Keyword matching\<close>

text \<open>
  Claim C5. The matcher returns, without repetition, exactly the subscriber rows that have
  a non-empty group binding and a keyword row whose keyword is contained in the lowercased
  post text. So the result is empty when no keyword is contained in the text, and every
  group-bound subscriber with a contained keyword is in it. The lowercased text is what
  the library's \<open>lower\<close> returns: the statement holds for every function in its place.
\<close>

theorem find_users_by_keywords_exact:
  "set (find_users_by_keywords P tweet_text db) =
     {u \<in> set (users db). truthy (u_group_id u) \<and>
        (\<exists>k \<in> set (keyword_rows db).
            k_user_id k = u_id u \<and> str_in (k_keyword k) (str_lower P tweet_text))}
   \<and> distinct (find_users_by_keywords P tweet_text db)"
proof -
  let ?m = "filter (\<lambda>kw. str_in kw (str_lower P tweet_text))
              (remdups (map k_keyword (keyword_rows db)))"
  have m: "\<And>k. k \<in> set (keyword_rows db) \<Longrightarrow>
      k_keyword k \<in> set ?m \<longleftrightarrow> str_in (k_keyword k) (str_lower P tweet_text)"
    by auto
  show ?thesis
  proof (cases "?m = []")
    case True
    then have "\<And>k. k \<in> set (keyword_rows db) \<Longrightarrow>
        \<not> str_in (k_keyword k) (str_lower P tweet_text)"
      using m by (metis empty_iff empty_set)
    with True show ?thesis
      by (auto simp: find_users_by_keywords_def Let_def)
  next
    case False
    then show ?thesis
      by (auto simp: find_users_by_keywords_def Let_def split: if_splits)
  qed
qed

text \<open>
  Ana (bound, follows "rust") is matched; Dani follows "rust" too but has no group; Edu is
  bound but follows "golang"; on a text without any keyword nobody is matched.
\<close>

theorem find_users_by_keywords_exact_witness:
  "member_row 1 ''101'' ''Ana'' (Some ''G1'')
     \<in> set (find_users_by_keywords ascii_text release_text shared_group_store)
   \<and> member_row 4 ''104'' ''Dani'' None
       \<notin> set (find_users_by_keywords ascii_text release_text shared_group_store)
   \<and> member_row 5 ''105'' ''Edu'' (Some ''G3'')
       \<notin> set (find_users_by_keywords ascii_text release_text shared_group_store)
   \<and> distinct (find_users_by_keywords ascii_text release_text shared_group_store)
   \<and> set (find_users_by_keywords ascii_text ''Nothing of interest'' shared_group_store) = {}"
proof -
  let ?holds = "\<lambda>u. \<exists>k \<in> set (keyword_rows shared_group_store).
      k_user_id k = u_id u \<and> str_in (k_keyword k) (str_lower ascii_text release_text)"
  have ana: "member_row 1 ''101'' ''Ana'' (Some ''G1'') \<in> set (users shared_group_store)
      \<and> truthy (u_group_id (member_row 1 ''101'' ''Ana'' (Some ''G1'')))
      \<and> ?holds (member_row 1 ''101'' ''Ana'' (Some ''G1''))"
    by code_simp
  have dani: "\<not> truthy (u_group_id (member_row 4 ''104'' ''Dani'' None))"
    by code_simp
  have edu: "\<not> ?holds (member_row 5 ''105'' ''Edu'' (Some ''G3''))"
    by code_simp
  have quiet: "\<forall>u \<in> set (users shared_group_store).
      \<not> (\<exists>k \<in> set (keyword_rows shared_group_store).
          k_user_id k = u_id u \<and> str_in (k_keyword k) (str_lower ascii_text ''Nothing of interest''))"
    by code_simp
  from find_users_by_keywords_exact [of ascii_text release_text shared_group_store] ana dani edu
  have "member_row 1 ''101'' ''Ana'' (Some ''G1'')
          \<in> set (find_users_by_keywords ascii_text release_text shared_group_store)"
    and "member_row 4 ''104'' ''Dani'' None
          \<notin> set (find_users_by_keywords ascii_text release_text shared_group_store)"
    and "member_row 5 ''105'' ''Edu'' (Some ''G3'')
          \<notin> set (find_users_by_keywords ascii_text release_text shared_group_store)"
    and "distinct (find_users_by_keywords ascii_text release_text shared_group_store)"
    by simp_all
  moreover
  from find_users_by_keywords_exact [of ascii_text "''Nothing of interest''" shared_group_store] quiet
  have "set (find_users_by_keywords ascii_text ''Nothing of interest'' shared_group_store) = {}"
    by auto
  ultimately show ?thesis by simp
qed

section \<open>Reconciliation without unassigned subscribers\<close>

text \<open>
  Claim C7. When the store yields no unassigned subscriber, the pass over the groups
  stops there: from that point, whatever groups remain, the store and the trace stay as
  they are (no group completed, no subscriber bound, no call to the platform). A cycle
  that starts in such a store returns it unchanged with an empty trace, so its incomplete
  groups are still incomplete afterwards.
\<close>

theorem no_unassigned_subscriber_aborts_cycle:
  assumes "get_user_without_group db = None"
  shows "process_loop E gs (db, trace) = (db, trace)
         \<and> process_groups E db = (db, [])
         \<and> get_incomplete_groups (fst (process_groups E db)) = get_incomplete_groups db"
  using assms by (simp add: process_loop_no_user process_groups_def Let_def)

theorem no_unassigned_subscriber_aborts_cycle_witness:
  "get_user_without_group stalled_store = None
   \<and> get_incomplete_groups stalled_store = [new_group 1 ''G1'', new_group 2 ''G2'']
   \<and> process_loop platform_up [new_group 2 ''G2''] (stalled_store, []) = (stalled_store, [])
   \<and> process_groups platform_up stalled_store = (stalled_store, [])
   \<and> get_incomplete_groups (fst (process_groups platform_up stalled_store)) =
       [new_group 1 ''G1'', new_group 2 ''G2'']"
proof -
  have none: "get_user_without_group stalled_store = None"
    by code_simp
  have two: "get_incomplete_groups stalled_store = [new_group 1 ''G1'', new_group 2 ''G2'']"
    by code_simp
  from no_unassigned_subscriber_aborts_cycle
         [OF none, of platform_up "[new_group 2 ''G2'']" "[]"] none two
  show ?thesis by simp
qed

text \<open>
  With one unassigned subscriber and two waiting groups, the cycle completes G1 for Bruno,
  sends him one invitation, finds nobody for G2 and stops: G2 is still incomplete.
\<close>

lemma one_subscriber_two_groups_scenario:
  "snd (process_groups platform_up bruno_store) =
     [InviteLinkCreated ''G1'' (Some ''https://t.me/+G1''),
      InviteSent ''102'' ''https://t.me/+G1'' True]
   \<and> map g_group_name (groups (fst (process_groups platform_up bruno_store))) =
       [Some ''Grupo de Bruno - ai, data'', None]
   \<and> map u_group_id (users (fst (process_groups platform_up bruno_store))) =
       [Some ''G0'', Some ''G1'']
   \<and> get_incomplete_groups (fst (process_groups platform_up bruno_store)) =
       [new_group 2 ''G2'']"
  by code_simp

section \<open>Registration with repeated keywords\<close>

text \<open>
  Claim C3 says that a keywords text yielding the same normalized keyword twice still
  registers the subscriber, the keyword being stored once. The code does otherwise: the
  second insert of the pair (subscriber, keyword) violates \<open>UNIQUE(user_id, keyword)\<close>,
  the \<open>IntegrityError\<close> handler written for a chat id that already exists returns
  \<open>None\<close>, and nothing is committed. Whenever the normalized keywords repeat,
  \<open>add_user\<close> reports failure and the store is unchanged.
\<close>

theorem repeated_keyword_rejects_subscriber:
  assumes "\<not> distinct (map (str_lower P) (keyword_list P keywords_text))"
  shows "add_user P chat_id name email intention keywords_text now db = (None, db)"
proof (cases "sql_insert_user chat_id name email intention now db")
  case (Inl e)
  then show ?thesis by (cases e) (simp add: add_user_def)
next
  case (Inr p)
  obtain user_id db1 where p: "p = (user_id, db1)" by (cases p)
  show ?thesis
  proof (cases "insert_keywords P user_id now (keyword_list P keywords_text) db1")
    case (Inl e)
    with Inr p show ?thesis by (cases e) (simp add: add_user_def)
  next
    case ok: (Inr db2)
    from insert_keywords_ok [OF ok] assms show ?thesis by simp
  qed
qed

theorem repeated_keyword_rejects_subscriber_witness:
  "keyword_list ascii_text ''rust, Rust'' = [''rust'', ''Rust'']
   \<and> \<not> distinct (map (str_lower ascii_text) (keyword_list ascii_text ''rust, Rust''))
   \<and> add_user ascii_text ''42'' ''Ana'' ''ana@example.org'' ''news'' ''rust, Rust''
         ''2024-05-01T08:00:00'' empty_db = (None, empty_db)"
proof -
  have tokens: "keyword_list ascii_text ''rust, Rust'' = [''rust'', ''Rust'']"
    by code_simp
  have repeated: "\<not> distinct (map (str_lower ascii_text) (keyword_list ascii_text ''rust, Rust''))"
    by code_simp
  from repeated_keyword_rejects_subscriber [OF repeated] tokens repeated
  show ?thesis by simp
qed

section \<open>Removal of a subscriber\<close>

text \<open>
  Claim C4 says that removing a subscriber deletes the row, cascades to the subscriber's
  keyword rows, and returns whether a row existed. The return value and the deletion of
  the row are as claimed. The cascade is not: the connection never enables foreign keys,
  so \<open>remove_user\<close> changes nothing but the users table, and the keyword rows of the
  removed subscriber remain.
\<close>

theorem remove_user_keeps_keyword_rows:
  "remove_user chat_id db =
     (chat_id \<in> set (map u_chat_id (users db)),
      db\<lparr>users := filter (\<lambda>u. u_chat_id u \<noteq> chat_id) (users db)\<rparr>)"
proof (cases "find (\<lambda>u. u_chat_id u = chat_id) (users db)")
  case None
  then have none: "chat_id \<notin> set (map u_chat_id (users db))"
    by (auto simp: find_None_iff)
  then have "filter (\<lambda>u. u_chat_id u \<noteq> chat_id) (users db) = users db"
    by (auto simp: filter_id_conv)
  with None none show ?thesis by (simp add: remove_user_def)
next
  case (Some u)
  then have "chat_id \<in> set (map u_chat_id (users db))"
    by (auto simp: find_Some_iff)
  with Some show ?thesis
    by (simp add: remove_user_def sql_delete_user_def foreign_keys_def Let_def)
qed

text \<open>Ana is removed; her keyword row, with her subscriber id 1, is still in the store.\<close>

theorem remove_user_keeps_keyword_rows_witness:
  "users ana_store = [member_row 1 ''42'' ''Ana'' None]
   \<and> keyword_rows ana_store = [interest 1 1 ''rust'']
   \<and> remove_user ''42'' ana_store =
       (True, \<lparr>users = [], groups = [], keyword_rows = [interest 1 1 ''rust''], tweets = []\<rparr>)"
proof -
  have before: "users ana_store = [member_row 1 ''42'' ''Ana'' None]"
    "keyword_rows ana_store = [interest 1 1 ''rust'']"
    by code_simp+
  have after: "(''42'' \<in> set (map u_chat_id (users ana_store)),
         ana_store\<lparr>users := filter (\<lambda>u. u_chat_id u \<noteq> ''42'') (users ana_store)\<rparr>) =
        (True, \<lparr>users = [], groups = [], keyword_rows = [interest 1 1 ''rust''], tweets = []\<rparr>)"
    by code_simp
  have "remove_user ''42'' ana_store =
       (True, \<lparr>users = [], groups = [], keyword_rows = [interest 1 1 ''rust''], tweets = []\<rparr>)"
    by (simp only: remove_user_keeps_keyword_rows [of "''42''" ana_store] after)
  with before show ?thesis by blast
qed

section \<open>Registration without keywords\<close>

text \<open>
  Claim C10 says that registering a fresh address with a keywords text that has no
  non-empty token succeeds, returns a subscriber id, and creates a subscriber with an
  empty keyword set. The call does succeed, returns the new rowid and inserts no keyword
  row. The keyword set of the new subscriber is what the keywords table already holds
  under that rowid: the rows left behind by a removed subscriber whose rowid is handed
  out again. It is empty only when there are none.
\<close>

theorem add_user_without_keywords:
  assumes "chat_id \<notin> set (map u_chat_id (users db))"
      and "keyword_list P keywords_text = []"
  shows "fst (add_user P chat_id name email intention keywords_text now db) =
           Some (next_rowid (map u_id (users db)))
         \<and> keyword_rows (snd (add_user P chat_id name email intention keywords_text now db)) =
             keyword_rows db
         \<and> map_option snd (get_user_by_chat_id chat_id
               (snd (add_user P chat_id name email intention keywords_text now db))) =
             Some (map k_keyword
                     (filter (\<lambda>k. k_user_id k = next_rowid (map u_id (users db)))
                        (keyword_rows db)))"
  using assms
  by (simp add: add_user_no_tokens get_user_by_chat_id_def find_fresh_appended)

text \<open>
  Bob registers after Ana was removed, with a keywords text of commas and blanks: he gets
  Ana's rowid 1 and, with it, her keyword.
\<close>

theorem add_user_without_keywords_witness:
  "''77'' \<notin> set (map u_chat_id (users after_removal))
   \<and> keyword_list ascii_text '' , '' = []
   \<and> fst (add_user ascii_text ''77'' ''Bob'' ''bob@example.org'' ''news'' '' , '' ''2024-05-04T08:00:00''
            after_removal) = Some 1
   \<and> map_option snd (get_user_by_chat_id ''77''
         (snd (add_user ascii_text ''77'' ''Bob'' ''bob@example.org'' ''news'' '' , ''
                 ''2024-05-04T08:00:00'' after_removal))) = Some [''rust'']"
proof -
  have fresh: "''77'' \<notin> set (map u_chat_id (users after_removal))"
    by code_simp
  have none: "keyword_list ascii_text '' , '' = []"
    by code_simp
  have rowid: "next_rowid (map u_id (users after_removal)) = 1"
    by code_simp
  have left: "map k_keyword (filter (\<lambda>k. k_user_id k = 1) (keyword_rows after_removal)) =
      [''rust'']"
    by code_simp
  from add_user_without_keywords [OF fresh none, of "''Bob''" "''bob@example.org''" "''news''"
         "''2024-05-04T08:00:00''"] fresh none rowid left
  show ?thesis by simp
qed

end
